theory Spec2Isabelle
  imports Main "HOL-Library.Word" "HOL-Library.Multiset" "HOL-Library.Code_Target_Nat"
begin

section \<open>The data the exporter reads and writes\<close>

text \<open>
  The exporter of \<^verbatim>\<open>slogtrace/exporter.go\<close> reads spans of the OpenTelemetry SDK and
  writes records of \<^verbatim>\<open>slog\<close>. Both libraries live outside the repository; the types
  below carry the fields and accessors the exporter touches, under the names the Go code
  uses.
\<close>

subsection \<open>Errors and contexts\<close>

text \<open>
  A Go \<^verbatim>\<open>error\<close> is \<open>error option\<close> here: \<open>None\<close> is \<^verbatim>\<open>nil\<close>. The two errors of
  package \<^verbatim>\<open>context\<close> are named; everything a log handler may return is \<open>HandlerError\<close>.
\<close>

datatype error = Canceled | DeadlineExceeded | HandlerError string

text \<open>
  A \<^verbatim>\<open>context.Context\<close> is read at one moment only: \<open>Err\<close> is what \<^verbatim>\<open>ctx.Err()\<close> returns
  at that moment, and the channel \<^verbatim>\<open>ctx.Done()\<close> is closed exactly when \<open>Err\<close> is not \<^verbatim>\<open>nil\<close>
  (the contract of package \<^verbatim>\<open>context\<close>).
\<close>

datatype Context = Context (Err: "error option")

definition Done :: "Context \<Rightarrow> bool" where
  "Done ctx = (Err ctx \<noteq> None)"

subsection \<open>Attributes of package \<^verbatim>\<open>attribute\<close>\<close>

text \<open>
  \<^verbatim>\<open>attribute.Type\<close> is a Go \<^verbatim>\<open>int\<close> with nine named values; \<open>INVALID\<close> is the zero value
  and \<open>OTHER n\<close> stands for any value outside the named ones (a kind of a later version
  of the library). The switch of \<^verbatim>\<open>attributesToAttrs\<close> has eight cases and no default.
\<close>

datatype attribute_Type =
    INVALID | BOOL | INT64 | FLOAT64 | STRING
  | BOOLSLICE | INT64SLICE | FLOAT64SLICE | STRINGSLICE
  | OTHER nat

text \<open>
  An \<^verbatim>\<open>attribute.Value\<close> is a tagged union. A 64-bit integer is a \<open>64 word\<close>; a float64 is
  kept as its 64 bits, which is also how the library stores it. The selectors are the
  \<^verbatim>\<open>AsXxx\<close> accessors; the exporter calls each one only under the matching tag.
\<close>

datatype Value =
    EmptyValue
  | BoolValue (AsBool: bool)
  | Int64Value (AsInt64: "64 word")
  | Float64Value (AsFloat64: "64 word")
  | StringValue (AsString: string)
  | BoolSliceValue (AsBoolSlice: "bool list")
  | Int64SliceValue (AsInt64Slice: "64 word list")
  | Float64SliceValue (AsFloat64Slice: "64 word list")
  | StringSliceValue (AsStringSlice: "string list")
  | OtherValue nat

fun Type :: "Value \<Rightarrow> attribute_Type" where
  "Type EmptyValue = INVALID"
| "Type (BoolValue b) = BOOL"
| "Type (Int64Value i) = INT64"
| "Type (Float64Value f) = FLOAT64"
| "Type (StringValue s) = STRING"
| "Type (BoolSliceValue bs) = BOOLSLICE"
| "Type (Int64SliceValue is) = INT64SLICE"
| "Type (Float64SliceValue fs) = FLOAT64SLICE"
| "Type (StringSliceValue ss) = STRINGSLICE"
| "Type (OtherValue n) = OTHER n"

record KeyValue =
  Key :: string
  Value :: Value

subsection \<open>Attributes and records of package \<^verbatim>\<open>slog\<close>\<close>

datatype slog_Value =
    BoolV bool
  | Int64V "64 word"
  | Float64V "64 word"
  | StringV string

record Attr =
  AttrKey :: string
  AttrValue :: slog_Value

definition slog_Bool :: "string \<Rightarrow> bool \<Rightarrow> Attr" where
  "slog_Bool key v = \<lparr>AttrKey = key, AttrValue = BoolV v\<rparr>"

definition slog_Int64 :: "string \<Rightarrow> 64 word \<Rightarrow> Attr" where
  "slog_Int64 key v = \<lparr>AttrKey = key, AttrValue = Int64V v\<rparr>"

definition slog_Float64 :: "string \<Rightarrow> 64 word \<Rightarrow> Attr" where
  "slog_Float64 key v = \<lparr>AttrKey = key, AttrValue = Float64V v\<rparr>"

definition slog_String :: "string \<Rightarrow> string \<Rightarrow> Attr" where
  "slog_String key v = \<lparr>AttrKey = key, AttrValue = StringV v\<rparr>"

text \<open>
  \<^verbatim>\<open>slog.Level\<close> is a Go \<^verbatim>\<open>int\<close>; \<^verbatim>\<open>LevelInfo\<close> is 0 and \<^verbatim>\<open>LevelError\<close> is 8.
\<close>

type_synonym Level = int

definition LevelInfo :: Level where
  "LevelInfo = 0"

definition LevelError :: Level where
  "LevelError = 8"

text \<open>
  A \<^verbatim>\<open>time.Time\<close> is the instant it denotes, in nanoseconds on an unbounded time line, and
  a \<^verbatim>\<open>time.Duration\<close> is a number of nanoseconds in the range of a signed 64-bit integer.
\<close>

type_synonym Time = int
type_synonym Duration = int

record Record =
  Time :: Time
  Message :: string
  Level :: Level
  PC :: nat
  RecordAttrs :: "Attr list"

definition NewRecord :: "Time \<Rightarrow> Level \<Rightarrow> string \<Rightarrow> nat \<Rightarrow> Record" where
  "NewRecord t level msg pc = \<lparr>Time = t, Message = msg, Level = level, PC = pc, RecordAttrs = []\<rparr>"

definition AddAttrs :: "Record \<Rightarrow> Attr list \<Rightarrow> Record" where
  "AddAttrs r as = r\<lparr>RecordAttrs := RecordAttrs r @ as\<rparr>"

subsection \<open>Spans and events of the tracing SDK\<close>

datatype Code = Unset | Error | Ok

record Status =
  Code :: Code
  Description :: string

record Event =
  EventName :: string
  EventTime :: Time
  EventAttributes :: "KeyValue list"

record Span =
  Name :: string
  StartTime :: Time
  EndTime :: Time
  Status :: Status
  Attributes :: "KeyValue list"
  Events :: "Event list"

section \<open>Library functions the exporter calls\<close>

subsection \<open>\<^verbatim>\<open>fmt.Sprintf("%+v", xs)\<close> on a slice\<close>

text \<open>
  For a slice, \<^verbatim>\<open>fmt\<close> writes an opening bracket, the elements in order with one space
  before every element but the first, and a closing bracket. \<open>printValue\<close> is that loop,
  with the buffer written so far and the index \<open>i\<close>; \<open>f\<close> prints one element.
\<close>

fun printValue :: "('a \<Rightarrow> string) \<Rightarrow> nat \<Rightarrow> 'a list \<Rightarrow> string \<Rightarrow> string" where
  "printValue f i [] buf = buf"
| "printValue f i (x # xs) buf =
     printValue f (i + 1) xs ((if i > 0 then buf @ '' '' else buf) @ f x)"

definition Sprintf :: "('a \<Rightarrow> string) \<Rightarrow> 'a list \<Rightarrow> string" where
  "Sprintf f xs = printValue f 0 xs ''['' @ '']''"

text \<open>The elements: a bool prints as \<^verbatim>\<open>true\<close> or \<^verbatim>\<open>false\<close>, an integer in decimal, a string
  as it is. The shortest decimal text of a float64 is not modelled: the function that
  prints one is a parameter \<open>fmtFloat\<close> of the converter.\<close>

definition fmtBool :: "bool \<Rightarrow> string" where
  "fmtBool b = (if b then ''true'' else ''false'')"

fun fmtNat :: "nat \<Rightarrow> string" where
  "fmtNat n = (if n < 10 then [''0123456789'' ! n]
               else fmtNat (n div 10) @ [''0123456789'' ! (n mod 10)])"

definition fmtInt64 :: "64 word \<Rightarrow> string" where
  "fmtInt64 w = (if sint w < 0 then ''-'' @ fmtNat (nat (- sint w)) else fmtNat (nat (sint w)))"

definition fmtString :: "string \<Rightarrow> string" where
  "fmtString s = s"

section \<open>The attribute converter\<close>

text \<open>
  \<^verbatim>\<open>attributesToAttrs\<close> loops over the attributes and appends one \<^verbatim>\<open>slog.Attr\<close> for each
  of the eight kinds of its switch. \<open>attributesLoop\<close> is the loop, with the slice \<open>attrs\<close>
  built so far.
\<close>

fun attributesLoop :: "(64 word \<Rightarrow> string) \<Rightarrow> KeyValue list \<Rightarrow> Attr list \<Rightarrow> Attr list" where
  "attributesLoop fmtFloat [] attrs = attrs"
| "attributesLoop fmtFloat (attr # attributes) attrs =
     (let key = Key attr in
      attributesLoop fmtFloat attributes
        (case Type (Value attr) of
           BOOL \<Rightarrow> attrs @ [slog_Bool key (AsBool (Value attr))]
         | INT64 \<Rightarrow> attrs @ [slog_Int64 key (AsInt64 (Value attr))]
         | FLOAT64 \<Rightarrow> attrs @ [slog_Float64 key (AsFloat64 (Value attr))]
         | STRING \<Rightarrow> attrs @ [slog_String key (AsString (Value attr))]
         | BOOLSLICE \<Rightarrow> attrs @ [slog_String key (Sprintf fmtBool (AsBoolSlice (Value attr)))]
         | INT64SLICE \<Rightarrow> attrs @ [slog_String key (Sprintf fmtInt64 (AsInt64Slice (Value attr)))]
         | FLOAT64SLICE \<Rightarrow> attrs @ [slog_String key (Sprintf fmtFloat (AsFloat64Slice (Value attr)))]
         | STRINGSLICE \<Rightarrow> attrs @ [slog_String key (Sprintf fmtString (AsStringSlice (Value attr)))]
         | INVALID \<Rightarrow> attrs
         | OTHER n \<Rightarrow> attrs))"

definition attributesToAttrs :: "(64 word \<Rightarrow> string) \<Rightarrow> KeyValue list \<Rightarrow> Attr list" where
  "attributesToAttrs fmtFloat attributes = attributesLoop fmtFloat attributes []"

subsection \<open>\<^verbatim>\<open>Time.Sub\<close>, \<^verbatim>\<open>Time.Before\<close> and \<^verbatim>\<open>Duration.String\<close> of package \<^verbatim>\<open>time\<close>\<close>

text \<open>
  \<^verbatim>\<open>t.Sub(u)\<close> is the library's difference of two times. What it returns is not modelled
  (it stays within the 64 bits of a duration, and when both times carry a reading of the
  monotonic clock it subtracts the readings, which the model does not have): the
  function is the parameter \<open>Sub\<close> of the loops that build the records and of
  \<^verbatim>\<open>ExportSpans\<close>, and the theorems hold for every function put there.
  \<^verbatim>\<open>t.Before(u)\<close> compares the instants.
\<close>

definition Before :: "Time \<Rightarrow> Time \<Rightarrow> bool" where
  "Before t u = (t < u)"

definition Microsecond :: nat where
  "Microsecond = 1000"

definition Millisecond :: nat where
  "Millisecond = 1000000"

definition Second :: nat where
  "Second = 1000000000"

text \<open>
  \<^verbatim>\<open>Duration.String\<close> fills a buffer from its end. \<open>fmtFrac buf v prec print\<close> writes the
  last \<open>prec\<close> decimal digits of \<open>v\<close> in front of \<open>buf\<close>, without trailing zeros, and the
  point when a digit was written; it returns \<open>v\<close> without these digits. \<open>fmtInt\<close> writes
  \<open>v\<close> in decimal in front of \<open>buf\<close>.
\<close>

fun fmtFrac :: "string \<Rightarrow> nat \<Rightarrow> nat \<Rightarrow> bool \<Rightarrow> string \<times> nat" where
  "fmtFrac buf v 0 print = (if print then CHR ''.'' # buf else buf, v)"
| "fmtFrac buf v (Suc prec) print =
     (let digit = v mod 10;
          print = (print \<or> digit \<noteq> 0)
      in fmtFrac (if print then (''0123456789'' ! digit) # buf else buf) (v div 10) prec print)"

fun fmtIntLoop :: "string \<Rightarrow> nat \<Rightarrow> string" where
  "fmtIntLoop buf v =
     (if v > 0 then fmtIntLoop ((''0123456789'' ! (v mod 10)) # buf) (v div 10) else buf)"

definition fmtInt :: "string \<Rightarrow> nat \<Rightarrow> string" where
  "fmtInt buf v = (if v = 0 then CHR ''0'' # buf else fmtIntLoop buf v)"

text \<open>The micro sign is the two bytes \<^verbatim>\<open>C2 B5\<close> of its UTF-8 encoding.\<close>

definition Duration_String :: "Duration \<Rightarrow> string" where
  "Duration_String d =
     (let u = nat \<bar>d\<bar>;
          neg = (d < 0);
          w = (if u < Second then
                 (if u = 0 then ''0s''
                  else if u < Microsecond then
                    (case fmtFrac ''ns'' u 0 False of (buf, u) \<Rightarrow> fmtInt buf u)
                  else if u < Millisecond then
                    (case fmtFrac ([CHR 0xC2, CHR 0xB5] @ ''s'') u 3 False of
                       (buf, u) \<Rightarrow> fmtInt buf u)
                  else
                    (case fmtFrac ''ms'' u 6 False of (buf, u) \<Rightarrow> fmtInt buf u))
               else
                 (case fmtFrac ''s'' u 9 False of
                    (buf, u) \<Rightarrow>
                      (let buf = fmtInt buf (u mod 60);
                           u = u div 60
                       in if u > 0 then
                            (let buf = fmtInt (CHR ''m'' # buf) (u mod 60);
                                 u = u div 60
                             in if u > 0 then fmtInt (CHR ''h'' # buf) u else buf)
                          else buf)))
      in if neg then CHR ''-'' # w else w)"

subsection \<open>\<^verbatim>\<open>slices.SortStableFunc\<close>\<close>

text \<open>
  The library sorts blocks of 20 elements by insertion and merges the blocks, stably.
  The model is the insertion sort, run on the whole slice: for \<open>i = 1, 2, ...\<close> the
  element \<open>data[i]\<close> moves to the left while \<open>cmp(data[j], data[j-1]) < 0\<close>. \<open>insertElem\<close>
  is that inner loop; the sorted part before the element is given last element first.
\<close>

fun insertElem :: "('a \<Rightarrow> 'a \<Rightarrow> int) \<Rightarrow> 'a \<Rightarrow> 'a list \<Rightarrow> 'a list" where
  "insertElem cmp x [] = [x]"
| "insertElem cmp x (y # left) =
     (if cmp x y < 0 then y # insertElem cmp x left else x # y # left)"

fun insertionSortCmpFunc :: "('a \<Rightarrow> 'a \<Rightarrow> int) \<Rightarrow> 'a list \<Rightarrow> 'a list \<Rightarrow> 'a list" where
  "insertionSortCmpFunc cmp placed [] = rev placed"
| "insertionSortCmpFunc cmp placed (x # rest) =
     insertionSortCmpFunc cmp (insertElem cmp x placed) rest"

definition SortStableFunc :: "('a \<Rightarrow> 'a \<Rightarrow> int) \<Rightarrow> 'a list \<Rightarrow> 'a list" where
  "SortStableFunc cmp data = insertionSortCmpFunc cmp [] data"

subsection \<open>The log handler\<close>

text \<open>
  \<^verbatim>\<open>slog.Default().Handler().Handle(ctx, record)\<close> is the logging backend: a function of the
  context, the record and the backend's own state \<open>'s\<close>, returning an error or \<^verbatim>\<open>nil\<close> and
  the backend's next state.
\<close>

type_synonym 's Handler = "Context \<Rightarrow> Record \<Rightarrow> 's \<Rightarrow> error option \<times> 's"

section \<open>The exporter\<close>

record Exporter =
  stopped :: bool

text \<open>\<^verbatim>\<open>New\<close> takes no argument and returns the zero exporter and no error.\<close>

definition New :: "error + Exporter" where
  "New = Inr \<lparr>stopped = False\<rparr>"

text \<open>
  The loops of \<^verbatim>\<open>ExportSpans\<close> that build the records: \<open>eventLoop\<close> over the events of one
  span, with the level of that span, and \<open>spanLoop\<close> over the spans; \<open>records\<close> is the
  slice appended to.
\<close>

fun eventLoop ::
  "(64 word \<Rightarrow> string) \<Rightarrow> Level \<Rightarrow> Event list \<Rightarrow> Record list \<Rightarrow> Record list" where
  "eventLoop fmtFloat level [] records = records"
| "eventLoop fmtFloat level (event # events) records =
     (let eventRecord = NewRecord (EventTime event) level (EventName event) 0;
          eventRecord = AddAttrs eventRecord (attributesToAttrs fmtFloat (EventAttributes event))
      in eventLoop fmtFloat level events (records @ [eventRecord]))"

fun spanLoop ::
  "(64 word \<Rightarrow> string) \<Rightarrow> (Time \<Rightarrow> Time \<Rightarrow> Duration) \<Rightarrow> Span list \<Rightarrow> Record list \<Rightarrow>
     Record list" where
  "spanLoop fmtFloat Sub [] records = records"
| "spanLoop fmtFloat Sub (span # spans) records =
     (let level = (if Code (Status span) = Error then LevelError else LevelInfo);
          record = NewRecord (StartTime span) level (Name span) 0;
          duration = Sub (EndTime span) (StartTime span);
          attrs = [];
          attrs = attrs @ [slog_String ''duration'' (Duration_String duration)];
          attrs = attrs @ attributesToAttrs fmtFloat (Attributes span);
          record = AddAttrs record attrs;
          records = records @ [record]
      in spanLoop fmtFloat Sub spans (eventLoop fmtFloat level (Events span) records))"

text \<open>The comparison function handed to \<^verbatim>\<open>SortStableFunc\<close>.\<close>

definition cmpTime :: "Record \<Rightarrow> Record \<Rightarrow> int" where
  "cmpTime a b =
     (if Time a = Time b then 0
      else if Before (Time a) (Time b) then - 1
      else 1)"

text \<open>
  The delivery loop. Besides the error and the backend's state it returns the calls of
  \<^verbatim>\<open>Handle\<close> it made, in order, each with the record handed over and what the call
  returned: that is all the backend sees of an export.
\<close>

fun deliver ::
  "'s Handler \<Rightarrow> Context \<Rightarrow> Record list \<Rightarrow> 's \<Rightarrow>
     error option \<times> 's \<times> (Record \<times> error option) list" where
  "deliver h ctx [] s = (None, s, [])"
| "deliver h ctx (record # records) s =
     (case h ctx record s of
        (err, s') \<Rightarrow>
          if err \<noteq> None then (err, s', [(record, err)])
          else (case deliver h ctx records s' of
                  (res, s'', calls) \<Rightarrow> (res, s'', (record, err) # calls)))"

definition ExportSpans ::
  "(64 word \<Rightarrow> string) \<Rightarrow> (Time \<Rightarrow> Time \<Rightarrow> Duration) \<Rightarrow> 's Handler \<Rightarrow> Exporter \<Rightarrow>
     Context \<Rightarrow> Span list \<Rightarrow> 's \<Rightarrow>
     error option \<times> 's \<times> (Record \<times> error option) list" where
  "ExportSpans fmtFloat Sub h e ctx spans s =
     (if stopped e then (None, s, [])
      else if length spans = 0 then (None, s, [])
      else
        (let records = spanLoop fmtFloat Sub spans [];
             records = SortStableFunc cmpTime records
         in deliver h ctx records s))"

text \<open>\<^verbatim>\<open>Shutdown\<close> sets the flag, then looks at the context once.\<close>

definition Shutdown :: "Exporter \<Rightarrow> Context \<Rightarrow> error option \<times> Exporter" where
  "Shutdown e ctx =
     (let e = e\<lparr>stopped := True\<rparr>
      in if Done ctx then (Err ctx, e) else (None, e))"

section \<open>Notions of the specification\<close>

text \<open>
  The specification writes a rendered sequence as the bracketed list of its elements,
  separated by single spaces, with no separator after the last one.
\<close>

fun joinSpace :: "string list \<Rightarrow> string" where
  "joinSpace [] = []"
| "joinSpace [v] = v"
| "joinSpace (v # w # vs) = v @ '' '' @ joinSpace (w # vs)"

definition bracketed :: "string list \<Rightarrow> string" where
  "bracketed vs = ''['' @ joinSpace vs @ '']''"

text \<open>The eight kinds the specification calls recognized: the four scalars and their
  sequences.\<close>

definition recognized :: "KeyValue \<Rightarrow> bool" where
  "recognized a =
     (Type (Value a) \<in>
        {BOOL, INT64, FLOAT64, STRING, BOOLSLICE, INT64SLICE, FLOAT64SLICE, STRINGSLICE})"

text \<open>
  A caller uses one exporter through a sequence of calls, one after the other.
  \<open>runCalls\<close> makes them in order: it threads the exporter and the backend's state
  through, and returns what each call returned and every call of \<^verbatim>\<open>Handle\<close> made on the
  way.
\<close>

datatype Call = ExportSpansCall Context "Span list" | ShutdownCall Context

fun runCalls ::
  "(64 word \<Rightarrow> string) \<Rightarrow> (Time \<Rightarrow> Time \<Rightarrow> Duration) \<Rightarrow> 's Handler \<Rightarrow> Call list \<Rightarrow>
     Exporter \<Rightarrow> 's \<Rightarrow>
     error option list \<times> Exporter \<times> 's \<times> (Record \<times> error option) list" where
  "runCalls ff Sub h [] e s = ([], e, s, [])"
| "runCalls ff Sub h (ExportSpansCall ctx spans # cs) e s =
     (case ExportSpans ff Sub h e ctx spans s of
        (res, s', calls) \<Rightarrow>
          (case runCalls ff Sub h cs e s' of
             (results, e', s'', calls') \<Rightarrow> (res # results, e', s'', calls @ calls')))"
| "runCalls ff Sub h (ShutdownCall ctx # cs) e s =
     (case Shutdown e ctx of
        (res, e') \<Rightarrow>
          (case runCalls ff Sub h cs e' s of
             (results, e'', s'', calls') \<Rightarrow> (res # results, e'', s'', calls')))"

section \<open>The converter, attribute by attribute\<close>

lemma attributesLoop_step:
  "attributesLoop ff (a # as) acc = attributesLoop ff as (acc @ attributesLoop ff [a] [])"
  by (cases "Type (Value a)") simp_all

lemma attributesLoop_concat:
  "attributesLoop ff as acc = acc @ concat (map (\<lambda>a. attributesLoop ff [a] []) as)"
proof (induction as arbitrary: acc)
  case Nil
  show ?case by simp
next
  case (Cons a as)
  have "attributesLoop ff (a # as) acc = attributesLoop ff as (acc @ attributesLoop ff [a] [])"
    by (rule attributesLoop_step)
  also have "\<dots> = (acc @ attributesLoop ff [a] []) @ concat (map (\<lambda>a. attributesLoop ff [a] []) as)"
    by (rule Cons.IH)
  finally show ?case by (simp del: attributesLoop.simps)
qed

lemma attributesToAttrs_concat:
  "attributesToAttrs ff as = concat (map (\<lambda>a. attributesToAttrs ff [a]) as)"
  unfolding attributesToAttrs_def using attributesLoop_concat [of ff as "[]"] by simp

lemma attributesToAttrs_append:
  "attributesToAttrs ff (as @ bs) = attributesToAttrs ff as @ attributesToAttrs ff bs"
  using attributesToAttrs_concat [of ff "as @ bs"] attributesToAttrs_concat [of ff as]
    attributesToAttrs_concat [of ff bs] by simp

lemma attributesToAttrs_Cons:
  "attributesToAttrs ff (a # as) = attributesToAttrs ff [a] @ attributesToAttrs ff as"
  using attributesToAttrs_append [of ff "[a]" as] by simp

lemma attributesToAttrs_Nil: "attributesToAttrs ff [] = []"
  by (simp add: attributesToAttrs_def)

lemma attributesToAttrs_single:
  "attributesToAttrs ff [a] =
     (case Value a of
        EmptyValue \<Rightarrow> []
      | BoolValue b \<Rightarrow> [slog_Bool (Key a) b]
      | Int64Value i \<Rightarrow> [slog_Int64 (Key a) i]
      | Float64Value f \<Rightarrow> [slog_Float64 (Key a) f]
      | StringValue s \<Rightarrow> [slog_String (Key a) s]
      | BoolSliceValue bs \<Rightarrow> [slog_String (Key a) (Sprintf fmtBool bs)]
      | Int64SliceValue is \<Rightarrow> [slog_String (Key a) (Sprintf fmtInt64 is)]
      | Float64SliceValue fs \<Rightarrow> [slog_String (Key a) (Sprintf ff fs)]
      | StringSliceValue ss \<Rightarrow> [slog_String (Key a) (Sprintf fmtString ss)]
      | OtherValue n \<Rightarrow> [])"
  by (cases "Value a") (simp_all add: attributesToAttrs_def)

lemma attributesToAttrs_middle:
  "attributesToAttrs ff (pre @ a # post) =
     attributesToAttrs ff pre @ attributesToAttrs ff [a] @ attributesToAttrs ff post"
  using attributesToAttrs_append [of ff pre "a # post"] attributesToAttrs_Cons [of ff a post]
  by simp

lemma joinSpace_Cons:
  "joinSpace (v # vs) = v @ (if vs = [] then [] else '' '') @ joinSpace vs"
  by (cases vs) simp_all

lemma printValue_joinSpace:
  "printValue f i xs buf =
     buf @ (if i > 0 \<and> xs \<noteq> [] then '' '' else []) @ joinSpace (map f xs)"
proof (induction xs arbitrary: i buf)
  case Nil
  then show ?case by simp
next
  case (Cons x xs)
  show ?case
    by (simp add: Cons.IH joinSpace_Cons del: joinSpace.simps)
qed

lemma Sprintf_bracketed: "Sprintf f xs = bracketed (map f xs)"
  by (simp add: Sprintf_def bracketed_def printValue_joinSpace)

lemma recognized_single:
  "recognized a \<Longrightarrow> \<exists>v. attributesToAttrs ff [a] = [\<lparr>AttrKey = Key a, AttrValue = v\<rparr>]"
  by (cases "Value a")
     (simp_all add: recognized_def attributesToAttrs_single slog_Bool_def slog_Int64_def
        slog_Float64_def slog_String_def)

lemma unrecognized_single: "\<not> recognized a \<Longrightarrow> attributesToAttrs ff [a] = []"
  by (cases "Value a") (simp_all add: recognized_def attributesToAttrs_single)

lemma keys_attributesToAttrs:
  "map AttrKey (attributesToAttrs ff as) = map Key (filter recognized as)"
proof (induction as)
  case Nil
  show ?case by (simp add: attributesToAttrs_Nil)
next
  case (Cons a as)
  show ?case
  proof (cases "recognized a")
    case True
    then obtain v where "attributesToAttrs ff [a] = [\<lparr>AttrKey = Key a, AttrValue = v\<rparr>]"
      using recognized_single by blast
    with True Cons.IH show ?thesis
      by (simp add: attributesToAttrs_Cons [of ff a as])
  next
    case False
    with Cons.IH show ?thesis
      by (simp add: attributesToAttrs_Cons [of ff a as] unrecognized_single)
  qed
qed

text \<open>
  C5. A sequence-valued attribute of any of the four element kinds, wherever it stands
  in the list, is converted to one string-valued pair with the attribute's key; the
  string is the bracketed list of the printed elements, separated by single spaces. The
  attributes before and after it are converted as if it were not there.
\<close>

theorem attributesToAttrs_slice:
  "attributesToAttrs ff (pre @ \<lparr>Key = k, Value = BoolSliceValue bs\<rparr> # post) =
     attributesToAttrs ff pre @
     \<lparr>AttrKey = k, AttrValue = StringV (bracketed (map fmtBool bs))\<rparr> #
     attributesToAttrs ff post
   \<and> attributesToAttrs ff (pre @ \<lparr>Key = k, Value = Int64SliceValue ns\<rparr> # post) =
     attributesToAttrs ff pre @
     \<lparr>AttrKey = k, AttrValue = StringV (bracketed (map fmtInt64 ns))\<rparr> #
     attributesToAttrs ff post
   \<and> attributesToAttrs ff (pre @ \<lparr>Key = k, Value = Float64SliceValue fs\<rparr> # post) =
     attributesToAttrs ff pre @
     \<lparr>AttrKey = k, AttrValue = StringV (bracketed (map ff fs))\<rparr> #
     attributesToAttrs ff post
   \<and> attributesToAttrs ff (pre @ \<lparr>Key = k, Value = StringSliceValue ss\<rparr> # post) =
     attributesToAttrs ff pre @
     \<lparr>AttrKey = k, AttrValue = StringV (bracketed (map fmtString ss))\<rparr> #
     attributesToAttrs ff post"
  by (simp add: attributesToAttrs_middle attributesToAttrs_single Sprintf_bracketed
      slog_String_def)

text \<open>The sequences of the repository's test \<^verbatim>\<open>TestAttributesAreCorrectlyFormatted\<close>.\<close>

theorem attributesToAttrs_slice_witness:
  "attributesToAttrs (\<lambda>f. ''3.14'')
     [\<lparr>Key = ''bools'', Value = BoolSliceValue [True, False]\<rparr>] =
     [\<lparr>AttrKey = ''bools'', AttrValue = StringV ''[true false]''\<rparr>]
   \<and> attributesToAttrs (\<lambda>f. ''3.14'')
     [\<lparr>Key = ''ints'', Value = Int64SliceValue [1, 1, 2, 3, 5, 8, 13]\<rparr>] =
     [\<lparr>AttrKey = ''ints'', AttrValue = StringV ''[1 1 2 3 5 8 13]''\<rparr>]
   \<and> attributesToAttrs (\<lambda>f. ''3.14'')
     [\<lparr>Key = ''floats'', Value = Float64SliceValue [0, 0]\<rparr>] =
     [\<lparr>AttrKey = ''floats'', AttrValue = StringV ''[3.14 3.14]''\<rparr>]
   \<and> attributesToAttrs (\<lambda>f. ''3.14'')
     [\<lparr>Key = ''strings'', Value = StringSliceValue [''hello'', ''world'']\<rparr>] =
     [\<lparr>AttrKey = ''strings'', AttrValue = StringV ''[hello world]''\<rparr>]"
  using
    attributesToAttrs_slice [where ff = "\<lambda>f. ''3.14''" and pre = "[]" and post = "[]"
      and k = "''bools''" and bs = "[True, False]"]
    attributesToAttrs_slice [where ff = "\<lambda>f. ''3.14''" and pre = "[]" and post = "[]"
      and k = "''ints''" and ns = "[1, 1, 2, 3, 5, 8, 13]"]
    attributesToAttrs_slice [where ff = "\<lambda>f. ''3.14''" and pre = "[]" and post = "[]"
      and k = "''floats''" and fs = "[0, 0]"]
    attributesToAttrs_slice [where ff = "\<lambda>f. ''3.14''" and pre = "[]" and post = "[]"
      and k = "''strings''" and ss = "[''hello'', ''world'']"]
  by (simp add: attributesToAttrs_Nil bracketed_def fmtBool_def fmtInt64_def fmtString_def)

text \<open>
  C6. An attribute whose kind is none of the eight of the switch adds nothing to the
  output, and the attributes around it are converted as without it. The converter is a
  total function into lists of pairs: there is no error to return.
\<close>

theorem attributesToAttrs_skips_unrecognized:
  assumes "Type (Value a) \<notin>
             {BOOL, INT64, FLOAT64, STRING, BOOLSLICE, INT64SLICE, FLOAT64SLICE, STRINGSLICE}"
  shows "attributesToAttrs ff [a] = []
       \<and> attributesToAttrs ff (pre @ a # post) =
           attributesToAttrs ff pre @ attributesToAttrs ff post"
proof -
  from assms have "\<not> recognized a"
    by (simp add: recognized_def)
  then have "attributesToAttrs ff [a] = []"
    by (rule unrecognized_single)
  then show ?thesis
    by (simp add: attributesToAttrs_middle)
qed

theorem attributesToAttrs_skips_unrecognized_witness:
  "Type (Value \<lparr>Key = ''future'', Value = OtherValue 9\<rparr>) \<notin>
     {BOOL, INT64, FLOAT64, STRING, BOOLSLICE, INT64SLICE, FLOAT64SLICE, STRINGSLICE}
   \<and> attributesToAttrs (\<lambda>f. ''3.14'')
       [\<lparr>Key = ''bool'', Value = BoolValue True\<rparr>,
        \<lparr>Key = ''future'', Value = OtherValue 9\<rparr>,
        \<lparr>Key = ''string'', Value = StringValue ''hello world''\<rparr>] =
     [\<lparr>AttrKey = ''bool'', AttrValue = BoolV True\<rparr>,
      \<lparr>AttrKey = ''string'', AttrValue = StringV ''hello world''\<rparr>]"
  using attributesToAttrs_skips_unrecognized [of "\<lparr>Key = ''future'', Value = OtherValue 9\<rparr>" "\<lambda>f. ''3.14''"
      "[\<lparr>Key = ''bool'', Value = BoolValue True\<rparr>]"
      "[\<lparr>Key = ''string'', Value = StringValue ''hello world''\<rparr>]"]
  by (simp add: attributesToAttrs_single slog_Bool_def slog_String_def)

text \<open>
  C10. The output is the concatenation, in input order, of what each attribute gives by
  itself; each attribute gives nothing or one pair with its own key; so the keys of the
  output are the keys of the recognized attributes, in input order and as often as they
  occur, and the output is never longer than the input.
\<close>

theorem attributesToAttrs_order:
  "attributesToAttrs ff as = concat (map (\<lambda>a. attributesToAttrs ff [a]) as)
   \<and> (\<forall>a. attributesToAttrs ff [a] = []
          \<or> (\<exists>v. attributesToAttrs ff [a] = [\<lparr>AttrKey = Key a, AttrValue = v\<rparr>]))
   \<and> map AttrKey (attributesToAttrs ff as) = map Key (filter recognized as)
   \<and> length (attributesToAttrs ff as) \<le> length as"
proof -
  have "length (attributesToAttrs ff as) = length (map AttrKey (attributesToAttrs ff as))"
    by simp
  also have "\<dots> = length (filter recognized as)"
    by (simp only: keys_attributesToAttrs length_map)
  also have "\<dots> \<le> length as"
    by (rule length_filter_le)
  finally have "length (attributesToAttrs ff as) \<le> length as" .
  moreover have "attributesToAttrs ff [a] = []
      \<or> (\<exists>v. attributesToAttrs ff [a] = [\<lparr>AttrKey = Key a, AttrValue = v\<rparr>])" for a
    using recognized_single [of a ff] unrecognized_single [of a ff] by blast
  ultimately show ?thesis
    using attributesToAttrs_concat [of ff as] keys_attributesToAttrs [of ff as] by blast
qed

text \<open>Two attributes with the key \<^verbatim>\<open>k\<close> around an attribute of no recognized kind.\<close>

theorem attributesToAttrs_order_witness:
  "attributesToAttrs (\<lambda>f. ''3.14'')
     [\<lparr>Key = ''k'', Value = Int64Value 1\<rparr>,
      \<lparr>Key = ''x'', Value = EmptyValue\<rparr>,
      \<lparr>Key = ''k'', Value = StringValue ''two''\<rparr>] =
     [\<lparr>AttrKey = ''k'', AttrValue = Int64V 1\<rparr>,
      \<lparr>AttrKey = ''k'', AttrValue = StringV ''two''\<rparr>]"
  using attributesToAttrs_order [of "\<lambda>f. ''3.14''"
      "[\<lparr>Key = ''k'', Value = Int64Value 1\<rparr>,
        \<lparr>Key = ''x'', Value = EmptyValue\<rparr>,
        \<lparr>Key = ''k'', Value = StringValue ''two''\<rparr>]"]
  by (simp add: attributesToAttrs_single slog_Int64_def slog_String_def)

section \<open>The records built for a batch\<close>

lemma eventLoop_map:
  "eventLoop ff level events records =
     records @
     map (\<lambda>event. \<lparr>Time = EventTime event, Message = EventName event, Level = level, PC = 0,
            RecordAttrs = attributesToAttrs ff (EventAttributes event)\<rparr>) events"
  by (induction events arbitrary: records) (simp_all add: NewRecord_def AddAttrs_def)

lemma spanLoop_step:
  "spanLoop ff Sub (span # spans) records =
     spanLoop ff Sub spans (records @ spanLoop ff Sub [span] [])"
  by (simp add: Let_def eventLoop_map [of ff _ _ "_ @ _"] eventLoop_map [of ff _ _ "[_]"])

lemma spanLoop_concat:
  "spanLoop ff Sub spans records = records @ concat (map (\<lambda>span. spanLoop ff Sub [span] []) spans)"
proof (induction spans arbitrary: records)
  case Nil
  show ?case by simp
next
  case (Cons span spans)
  have "spanLoop ff Sub (span # spans) records = spanLoop ff Sub spans (records @ spanLoop ff Sub [span] [])"
    by (rule spanLoop_step)
  also have "\<dots> = (records @ spanLoop ff Sub [span] []) @
      concat (map (\<lambda>span. spanLoop ff Sub [span] []) spans)"
    by (rule Cons.IH)
  finally show ?case by (simp del: spanLoop.simps)
qed

lemma spanLoop_single:
  "spanLoop ff Sub [span] [] =
     \<lparr>Time = StartTime span, Message = Name span,
      Level = (if Code (Status span) = Error then LevelError else LevelInfo), PC = 0,
      RecordAttrs =
        \<lparr>AttrKey = ''duration'',
         AttrValue = StringV (Duration_String (Sub (EndTime span) (StartTime span)))\<rparr> #
        attributesToAttrs ff (Attributes span)\<rparr> #
     map (\<lambda>event. \<lparr>Time = EventTime event, Message = EventName event,
            Level = (if Code (Status span) = Error then LevelError else LevelInfo), PC = 0,
            RecordAttrs = attributesToAttrs ff (EventAttributes event)\<rparr>) (Events span)"
  by (simp add: Let_def eventLoop_map [of ff _ _ "[_]"] NewRecord_def AddAttrs_def slog_String_def)

lemma Duration_String_example: "Duration_String 1500000000 = ''1.5s''"
  by code_simp

text \<open>
  C4. The records of a batch are those of its spans, one span after the other. A span
  gives its own record, with the span's name, followed by one record per event, with the
  events' names in order. The span's record has level error exactly when the status code
  is \<open>Error\<close> and level info exactly when it is not, and every record of an event of
  the span has the level of the span's record.
\<close>

theorem spanLoop_level:
  "spanLoop ff Sub spans [] = concat (map (\<lambda>span. spanLoop ff Sub [span] []) spans)
   \<and> (\<exists>record eventRecords.
         spanLoop ff Sub [span] [] = record # eventRecords
       \<and> Message record = Name span
       \<and> map Message eventRecords = map EventName (Events span)
       \<and> (Level record = LevelError) = (Code (Status span) = Error)
       \<and> (Level record = LevelInfo) = (Code (Status span) \<noteq> Error)
       \<and> (\<forall>r \<in> set eventRecords. Level r = Level record))"
proof -
  have "spanLoop ff Sub spans [] = concat (map (\<lambda>span. spanLoop ff Sub [span] []) spans)"
    using spanLoop_concat [of ff Sub spans "[]"] by (simp del: spanLoop.simps)
  moreover have "LevelError \<noteq> LevelInfo"
    by (simp add: LevelError_def LevelInfo_def)
  ultimately show ?thesis
    by (simp add: spanLoop_single comp_def del: spanLoop.simps)
qed

text \<open>The two spans of the repository's test \<^verbatim>\<open>TestLogLevels\<close>, and a span with status
  \<open>Ok\<close>; the last two have an event.\<close>

theorem spanLoop_level_witness:
  "map Level (spanLoop (\<lambda>f. ''3.14'') (\<lambda>t u. t - u)
     [\<lparr>Name = ''test'', StartTime = 10, EndTime = 20,
       Status = \<lparr>Code = Unset, Description = ''''\<rparr>, Attributes = [], Events = []\<rparr>,
      \<lparr>Name = ''test error'', StartTime = 30, EndTime = 40,
       Status = \<lparr>Code = Error, Description = ''test error''\<rparr>, Attributes = [],
       Events = [\<lparr>EventName = ''test event'', EventTime = 35, EventAttributes = []\<rparr>]\<rparr>,
      \<lparr>Name = ''test ok'', StartTime = 50, EndTime = 60,
       Status = \<lparr>Code = Ok, Description = ''''\<rparr>, Attributes = [],
       Events = [\<lparr>EventName = ''ok event'', EventTime = 55, EventAttributes = []\<rparr>]\<rparr>] []) =
     [LevelInfo, LevelError, LevelError, LevelInfo, LevelInfo]"
  using spanLoop_level [of "\<lambda>f. ''3.14''" "\<lambda>t u. t - u"
     "[\<lparr>Name = ''test'', StartTime = 10, EndTime = 20,
       Status = \<lparr>Code = Unset, Description = ''''\<rparr>, Attributes = [], Events = []\<rparr>,
      \<lparr>Name = ''test error'', StartTime = 30, EndTime = 40,
       Status = \<lparr>Code = Error, Description = ''test error''\<rparr>, Attributes = [],
       Events = [\<lparr>EventName = ''test event'', EventTime = 35, EventAttributes = []\<rparr>]\<rparr>,
      \<lparr>Name = ''test ok'', StartTime = 50, EndTime = 60,
       Status = \<lparr>Code = Ok, Description = ''''\<rparr>, Attributes = [],
       Events = [\<lparr>EventName = ''ok event'', EventTime = 55, EventAttributes = []\<rparr>]\<rparr>]"]
  by (simp add: spanLoop_single del: spanLoop.simps)

text \<open>
  C3, as the code has it. The span's record starts with the pair \<^verbatim>\<open>duration\<close>, whose
  value is the text \<^verbatim>\<open>Duration.String\<close> gives for \<^verbatim>\<open>EndTime.Sub(StartTime)\<close>, the
  span's end time minus its start time, followed by the span's converted attributes.
  The record of an event carries the event's converted attributes and nothing else: no
  \<^verbatim>\<open>duration\<close> pair is added to it, and its keys are the keys of the event's own
  recognized attributes.
\<close>

theorem spanLoop_duration:
  "spanLoop ff Sub spans [] = concat (map (\<lambda>span. spanLoop ff Sub [span] []) spans)
   \<and> (\<exists>record eventRecords.
         spanLoop ff Sub [span] [] = record # eventRecords
       \<and> RecordAttrs record =
           \<lparr>AttrKey = ''duration'',
            AttrValue = StringV (Duration_String (Sub (EndTime span) (StartTime span)))\<rparr> #
           attributesToAttrs ff (Attributes span)
       \<and> map RecordAttrs eventRecords =
           map (\<lambda>event. attributesToAttrs ff (EventAttributes event)) (Events span)
       \<and> map (\<lambda>r. map AttrKey (RecordAttrs r)) eventRecords =
           map (\<lambda>event. map Key (filter recognized (EventAttributes event))) (Events span))"
proof -
  have "spanLoop ff Sub spans [] = concat (map (\<lambda>span. spanLoop ff Sub [span] []) spans)"
    using spanLoop_concat [of ff Sub spans "[]"] by (simp del: spanLoop.simps)
  then show ?thesis
    by (simp add: spanLoop_single comp_def keys_attributesToAttrs del: spanLoop.simps)
qed

text \<open>A span of one and a half seconds with a string attribute and an event; \<open>Sub\<close> is
  the difference of the instants.\<close>

theorem spanLoop_duration_witness:
  "map RecordAttrs (spanLoop (\<lambda>f. ''3.14'') (\<lambda>t u. t - u)
       [\<lparr>Name = ''test'', StartTime = 0, EndTime = 1500000000,
         Status = \<lparr>Code = Unset, Description = ''''\<rparr>,
         Attributes = [\<lparr>Key = ''string'', Value = StringValue ''hello world''\<rparr>],
         Events = [\<lparr>EventName = ''test event'', EventTime = 7,
                    EventAttributes = [\<lparr>Key = ''key'', Value = StringValue ''value''\<rparr>]\<rparr>]\<rparr>]
       []) =
     [[\<lparr>AttrKey = ''duration'', AttrValue = StringV ''1.5s''\<rparr>,
       \<lparr>AttrKey = ''string'', AttrValue = StringV ''hello world''\<rparr>],
      [\<lparr>AttrKey = ''key'', AttrValue = StringV ''value''\<rparr>]]"
  using spanLoop_duration [of "\<lambda>f. ''3.14''" "\<lambda>t u. t - u" "[]"
      "\<lparr>Name = ''test'', StartTime = 0, EndTime = 1500000000,
         Status = \<lparr>Code = Unset, Description = ''''\<rparr>,
         Attributes = [\<lparr>Key = ''string'', Value = StringValue ''hello world''\<rparr>],
         Events = [\<lparr>EventName = ''test event'', EventTime = 7,
                    EventAttributes = [\<lparr>Key = ''key'', Value = StringValue ''value''\<rparr>]\<rparr>]\<rparr>"]
  by (simp add: spanLoop_single attributesToAttrs_single slog_String_def
      Duration_String_example del: spanLoop.simps)

text \<open>
  C3 as the specification words it fails on an event that has an attribute of its own
  with the key \<^verbatim>\<open>duration\<close>: the event's record carries it.
\<close>

theorem event_duration_counterexample:
  "spanLoop (\<lambda>f. ''3.14'') (\<lambda>t u. t - u)
     [\<lparr>Name = ''download'', StartTime = 0, EndTime = 1500000000,
       Status = \<lparr>Code = Unset, Description = ''''\<rparr>, Attributes = [],
       Events = [\<lparr>EventName = ''retry'', EventTime = 7,
                  EventAttributes = [\<lparr>Key = ''duration'', Value = StringValue ''5s''\<rparr>]\<rparr>]\<rparr>]
     [] =
     [\<lparr>Time = 0, Message = ''download'', Level = LevelInfo, PC = 0,
       RecordAttrs = [\<lparr>AttrKey = ''duration'', AttrValue = StringV ''1.5s''\<rparr>]\<rparr>,
      \<lparr>Time = 7, Message = ''retry'', Level = LevelInfo, PC = 0,
       RecordAttrs = [\<lparr>AttrKey = ''duration'', AttrValue = StringV ''5s''\<rparr>]\<rparr>]"
  by (simp add: spanLoop_single attributesToAttrs_single attributesToAttrs_Nil slog_String_def
      Duration_String_example del: spanLoop.simps)

section \<open>The stable sort and the delivery loop\<close>

lemma mset_insertElem: "mset (insertElem cmp x placed) = add_mset x (mset placed)"
  by (induction placed) simp_all

lemma set_insertElem: "set (insertElem cmp x placed) = insert x (set placed)"
  by (induction placed) auto

lemma sorted_insertElem:
  fixes key :: "'a \<Rightarrow> int"
  assumes cmp: "\<And>a b. (cmp a b < 0) = (key a < key b)"
    and placed: "sorted (map key (rev placed))"
  shows "sorted (map key (rev (insertElem cmp x placed)))"
  using placed
proof (induction placed)
  case Nil
  show ?case by simp
next
  case (Cons y left)
  from Cons.prems have left: "sorted (map key (rev left))"
    and below: "\<forall>z \<in> set left. key z \<le> key y"
    by (auto simp: sorted_append)
  show ?case
  proof (cases "cmp x y < 0")
    case True
    then have "key x < key y"
      by (simp add: cmp)
    with True below Cons.IH [OF left] show ?thesis
      by (auto simp: sorted_append set_insertElem)
  next
    case False
    then have "key y \<le> key x"
      by (simp add: cmp)
    with False below Cons.prems show ?thesis
      by (auto simp: sorted_append)
  qed
qed

lemma filter_insertElem:
  fixes key :: "'a \<Rightarrow> int"
  assumes cmp: "\<And>a b. (cmp a b < 0) = (key a < key b)"
  shows "filter (\<lambda>r. key r = t) (rev (insertElem cmp x placed)) =
         filter (\<lambda>r. key r = t) (rev placed @ [x])"
proof (induction placed)
  case Nil
  show ?case by simp
next
  case (Cons y left)
  show ?case
  proof (cases "cmp x y < 0")
    case True
    then have "key x \<noteq> key y"
      by (simp add: cmp)
    with True Cons.IH show ?thesis
      by auto
  next
    case False
    then show ?thesis by simp
  qed
qed

lemma mset_insertionSortCmpFunc:
  "mset (insertionSortCmpFunc cmp placed rest) = mset placed + mset rest"
  by (induction rest arbitrary: placed) (simp_all add: mset_insertElem)

lemma sorted_insertionSortCmpFunc:
  fixes key :: "'a \<Rightarrow> int"
  assumes cmp: "\<And>a b. (cmp a b < 0) = (key a < key b)"
  shows "sorted (map key (rev placed)) \<Longrightarrow>
         sorted (map key (insertionSortCmpFunc cmp placed rest))"
proof (induction rest arbitrary: placed)
  case Nil
  then show ?case by simp
next
  case (Cons x rest)
  from cmp Cons.prems have "sorted (map key (rev (insertElem cmp x placed)))"
    by (rule sorted_insertElem)
  then show ?case
    by (simp add: Cons.IH)
qed

lemma filter_insertionSortCmpFunc:
  fixes key :: "'a \<Rightarrow> int"
  assumes cmp: "\<And>a b. (cmp a b < 0) = (key a < key b)"
  shows "filter (\<lambda>r. key r = t) (insertionSortCmpFunc cmp placed rest) =
         filter (\<lambda>r. key r = t) (rev placed @ rest)"
proof (induction rest arbitrary: placed)
  case Nil
  show ?case by simp
next
  case (Cons x rest)
  have "filter (\<lambda>r. key r = t) (insertionSortCmpFunc cmp placed (x # rest)) =
        filter (\<lambda>r. key r = t) (rev (insertElem cmp x placed) @ rest)"
    by (simp add: Cons.IH)
  also have "\<dots> = filter (\<lambda>r. key r = t) ((rev placed @ [x]) @ rest)"
    using filter_insertElem [of cmp key t x placed, OF cmp] by simp
  finally show ?case by simp
qed

lemma cmpTime_less: "(cmpTime a b < 0) = (Time a < Time b)"
  by (simp add: cmpTime_def Before_def)

lemma mset_SortStableFunc: "mset (SortStableFunc cmp rs) = mset rs"
  by (simp add: SortStableFunc_def mset_insertionSortCmpFunc)

lemma sorted_SortStableFunc: "sorted (map Time (SortStableFunc cmpTime rs))"
  unfolding SortStableFunc_def
  by (rule sorted_insertionSortCmpFunc) (simp_all add: cmpTime_less)

lemma filter_SortStableFunc:
  "filter (\<lambda>r. Time r = t) (SortStableFunc cmpTime rs) = filter (\<lambda>r. Time r = t) rs"
  unfolding SortStableFunc_def
  using filter_insertionSortCmpFunc [of cmpTime Time t "[]" rs] by (simp add: cmpTime_less)

lemma SortStableFunc_sort_key: "SortStableFunc cmpTime rs = sort_key Time rs"
proof (rule sym, rule properties_for_sort_key)
  show "mset (SortStableFunc cmpTime rs) = mset rs"
    by (rule mset_SortStableFunc)
  show "sorted (map Time (SortStableFunc cmpTime rs))"
    by (rule sorted_SortStableFunc)
  show "filter (\<lambda>x. Time k = Time x) (SortStableFunc cmpTime rs) =
        filter (\<lambda>x. Time k = Time x) rs" for k
    using filter_SortStableFunc [of "Time k" rs] by (simp add: eq_commute [of "Time k"])
qed

lemma SortStableFunc_Nil: "SortStableFunc cmp [] = []"
  by (simp add: SortStableFunc_def)

lemma deliver_calls:
  "deliver h ctx rs s = (res, s', calls) \<Longrightarrow> map fst calls = take (length calls) rs"
proof (induction rs arbitrary: s res s' calls)
  case Nil
  then show ?case by simp
next
  case (Cons r rs)
  then show ?case
    by (fastforce split: prod.splits if_splits)
qed

lemma deliver_success:
  "deliver h ctx rs s = (None, s', calls) \<Longrightarrow> calls = map (\<lambda>r. (r, None)) rs"
proof (induction rs arbitrary: s s' calls)
  case Nil
  then show ?case by simp
next
  case (Cons r rs)
  then show ?case
    by (fastforce split: prod.splits if_splits)
qed

lemma deliver_append:
  "deliver h ctx pre s = (None, s1, calls1) \<Longrightarrow>
   deliver h ctx (pre @ post) s =
     (case deliver h ctx post s1 of (res, s2, calls2) \<Rightarrow> (res, s2, calls1 @ calls2))"
proof (induction pre arbitrary: s calls1)
  case Nil
  then show ?case by (simp split: prod.splits)
next
  case (Cons r pre)
  obtain err sa where step: "h ctx r s = (err, sa)"
    by (cases "h ctx r s")
  obtain res' sb callsb where rest: "deliver h ctx pre sa = (res', sb, callsb)"
    by (cases "deliver h ctx pre sa")
  from Cons.prems step rest have ok: "err = None" "res' = None" "sb = s1"
    "calls1 = (r, None) # callsb"
    by (auto split: if_splits)
  from rest ok have "deliver h ctx pre sa = (None, s1, callsb)"
    by simp
  from Cons.IH [OF this] step ok show ?case
    by (simp split: prod.splits)
qed

lemma deliver_failure:
  assumes "deliver h ctx pre s = (None, s1, calls1)"
    and "h ctx r s1 = (Some err, s2)"
  shows "deliver h ctx (pre @ r # post) s =
           (Some err, s2, map (\<lambda>r. (r, None)) pre @ [(r, Some err)])"
  using deliver_append [OF assms(1), of "r # post"] deliver_success [OF assms(1)] assms(2)
  by simp

lemma times_spanLoop:
  "map Time (spanLoop ff Sub spans []) =
     concat (map (\<lambda>span. StartTime span # map EventTime (Events span)) spans)"
proof -
  have "spanLoop ff Sub spans [] = concat (map (\<lambda>span. spanLoop ff Sub [span] []) spans)"
    using spanLoop_concat [of ff Sub spans "[]"] by (simp del: spanLoop.simps)
  then show ?thesis
    by (simp add: map_concat comp_def spanLoop_single del: spanLoop.simps)
qed

lemma messages_spanLoop:
  "map Message (spanLoop ff Sub spans []) =
     concat (map (\<lambda>span. Name span # map EventName (Events span)) spans)"
proof -
  have "spanLoop ff Sub spans [] = concat (map (\<lambda>span. spanLoop ff Sub [span] []) spans)"
    using spanLoop_concat [of ff Sub spans "[]"] by (simp del: spanLoop.simps)
  then show ?thesis
    by (simp add: map_concat comp_def spanLoop_single del: spanLoop.simps)
qed

lemma ExportSpans_active:
  "\<not> stopped e \<Longrightarrow>
   ExportSpans ff Sub h e ctx spans s =
     deliver h ctx (SortStableFunc cmpTime (spanLoop ff Sub spans [])) s"
  by (cases spans) (simp_all add: ExportSpans_def SortStableFunc_Nil Let_def del: spanLoop.simps(2))

text \<open>
  C2. For an exporter that is not stopped: the records are built span by span, each
  span's record followed by the records of its events; the sequence handed to the
  delivery loop holds the same records, is sorted by time, and keeps the records of
  any one time in the order they were built; the calls of \<^verbatim>\<open>Handle\<close> are made on an
  initial part of that sequence, in its order, and on all of it when the export returns
  no error.
\<close>

theorem ExportSpans_order:
  assumes "\<not> stopped e"
    and "ExportSpans ff Sub h e ctx spans s = (res, s', calls)"
  shows "map Time (spanLoop ff Sub spans []) =
           concat (map (\<lambda>span. StartTime span # map EventTime (Events span)) spans)
       \<and> map Message (spanLoop ff Sub spans []) =
           concat (map (\<lambda>span. Name span # map EventName (Events span)) spans)
       \<and> mset (SortStableFunc cmpTime (spanLoop ff Sub spans [])) = mset (spanLoop ff Sub spans [])
       \<and> sorted (map Time (SortStableFunc cmpTime (spanLoop ff Sub spans [])))
       \<and> (\<forall>t. filter (\<lambda>r. Time r = t) (SortStableFunc cmpTime (spanLoop ff Sub spans [])) =
               filter (\<lambda>r. Time r = t) (spanLoop ff Sub spans []))
       \<and> SortStableFunc cmpTime (spanLoop ff Sub spans []) = sort_key Time (spanLoop ff Sub spans [])
       \<and> map fst calls = take (length calls) (SortStableFunc cmpTime (spanLoop ff Sub spans []))
       \<and> (res = None \<longrightarrow> map fst calls = SortStableFunc cmpTime (spanLoop ff Sub spans []))"
proof -
  from assms have run:
    "deliver h ctx (SortStableFunc cmpTime (spanLoop ff Sub spans [])) s = (res, s', calls)"
    by (simp add: ExportSpans_active)
  have "map fst calls = take (length calls) (SortStableFunc cmpTime (spanLoop ff Sub spans []))"
    using run by (rule deliver_calls)
  moreover have "map fst calls = SortStableFunc cmpTime (spanLoop ff Sub spans [])" if "res = None"
  proof -
    from run that
    have "deliver h ctx (SortStableFunc cmpTime (spanLoop ff Sub spans [])) s = (None, s', calls)"
      by simp
    then have "calls = map (\<lambda>r. (r, None)) (SortStableFunc cmpTime (spanLoop ff Sub spans []))"
      by (rule deliver_success)
    then show ?thesis
      by (simp add: comp_def)
  qed
  ultimately show ?thesis
    using times_spanLoop [of ff Sub spans] messages_spanLoop [of ff Sub spans]
      mset_SortStableFunc [of cmpTime "spanLoop ff Sub spans []"]
      sorted_SortStableFunc [of "spanLoop ff Sub spans []"]
      filter_SortStableFunc [of _ "spanLoop ff Sub spans []"]
      SortStableFunc_sort_key [of "spanLoop ff Sub spans []"]
    by blast
qed

text \<open>
  Two spans; the first starts after the second, and its events are not in order of time.
  The handler appends the message of every record to the backend's state.
\<close>

theorem ExportSpans_order_witness:
  "\<not> stopped \<lparr>stopped = False\<rparr>
   \<and> fst (ExportSpans (\<lambda>f. ''3.14'') (\<lambda>t u. t - u) (\<lambda>ctx r s. (None, s @ [Message r]))
         \<lparr>stopped = False\<rparr> (Context None)
         [\<lparr>Name = ''A'', StartTime = 20, EndTime = 30,
           Status = \<lparr>Code = Unset, Description = ''''\<rparr>, Attributes = [],
           Events = [\<lparr>EventName = ''a1'', EventTime = 20, EventAttributes = []\<rparr>,
                     \<lparr>EventName = ''a0'', EventTime = 10, EventAttributes = []\<rparr>]\<rparr>,
          \<lparr>Name = ''B'', StartTime = 10, EndTime = 30,
           Status = \<lparr>Code = Error, Description = ''''\<rparr>, Attributes = [],
           Events = [\<lparr>EventName = ''b1'', EventTime = 20, EventAttributes = []\<rparr>]\<rparr>]
         []) = None
   \<and> map (\<lambda>c. (Time (fst c), Message (fst c)))
       (snd (snd (ExportSpans (\<lambda>f. ''3.14'') (\<lambda>t u. t - u) (\<lambda>ctx r s. (None, s @ [Message r]))
         \<lparr>stopped = False\<rparr> (Context None)
         [\<lparr>Name = ''A'', StartTime = 20, EndTime = 30,
           Status = \<lparr>Code = Unset, Description = ''''\<rparr>, Attributes = [],
           Events = [\<lparr>EventName = ''a1'', EventTime = 20, EventAttributes = []\<rparr>,
                     \<lparr>EventName = ''a0'', EventTime = 10, EventAttributes = []\<rparr>]\<rparr>,
          \<lparr>Name = ''B'', StartTime = 10, EndTime = 30,
           Status = \<lparr>Code = Error, Description = ''''\<rparr>, Attributes = [],
           Events = [\<lparr>EventName = ''b1'', EventTime = 20, EventAttributes = []\<rparr>]\<rparr>]
         []))) =
     [(10, ''a0''), (10, ''B''), (20, ''A''), (20, ''a1''), (20, ''b1'')]"
  (is "_ \<and> fst ?run = None \<and> ?order")
proof -
  have active: "\<not> stopped \<lparr>stopped = False\<rparr>"
    by simp
  have run: "?run = (fst ?run, fst (snd ?run), snd (snd ?run))"
    by simp
  have none: "fst ?run = None"
    by code_simp
  have order: ?order
    by code_simp
  from ExportSpans_order [OF active run] active none order show ?thesis
    by blast
qed

text \<open>
  C9. For an exporter that is not stopped: when the sorted sequence is \<open>pre\<close>, then
  \<open>r\<close>, then \<open>post\<close>, the deliveries of \<open>pre\<close> succeed and leave the backend in state
  \<open>s1\<close>, and \<^verbatim>\<open>Handle\<close> fails on \<open>r\<close> there with \<open>err\<close>, then \<^verbatim>\<open>ExportSpans\<close> returns
  \<open>err\<close>; the calls made are the successful ones on \<open>pre\<close> and the failed one on \<open>r\<close>,
  none on \<open>post\<close> and none twice; the backend is left as the failed call left it.
\<close>

theorem ExportSpans_partial_delivery:
  assumes "\<not> stopped e"
    and "SortStableFunc cmpTime (spanLoop ff Sub spans []) = pre @ r # post"
    and "deliver h ctx pre s = (None, s1, calls1)"
    and "h ctx r s1 = (Some err, s2)"
  shows "ExportSpans ff Sub h e ctx spans s =
           (Some err, s2, map (\<lambda>r. (r, None)) pre @ [(r, Some err)])"
  using assms(1,2) deliver_failure [OF assms(3,4), of post]
  by (simp add: ExportSpans_active)

text \<open>
  The same batch with a handler that fails on the record with message \<^verbatim>\<open>A\<close>, the
  third of five.
\<close>

theorem ExportSpans_partial_delivery_witness:
  "ExportSpans (\<lambda>f. ''3.14'') (\<lambda>t u. t - u)
     (\<lambda>ctx r s. if Message r = ''A'' then (Some (HandlerError ''closed''), s)
                 else (None, s @ [Message r]))
     \<lparr>stopped = False\<rparr> (Context None)
     [\<lparr>Name = ''A'', StartTime = 20, EndTime = 30,
       Status = \<lparr>Code = Unset, Description = ''''\<rparr>, Attributes = [],
       Events = [\<lparr>EventName = ''a1'', EventTime = 20, EventAttributes = []\<rparr>,
                 \<lparr>EventName = ''a0'', EventTime = 10, EventAttributes = []\<rparr>]\<rparr>,
      \<lparr>Name = ''B'', StartTime = 10, EndTime = 30,
       Status = \<lparr>Code = Error, Description = ''''\<rparr>, Attributes = [],
       Events = [\<lparr>EventName = ''b1'', EventTime = 20, EventAttributes = []\<rparr>]\<rparr>]
     [] =
     (Some (HandlerError ''closed''), [''a0'', ''B''],
      [(\<lparr>Time = 10, Message = ''a0'', Level = LevelInfo, PC = 0, RecordAttrs = []\<rparr>, None),
       (\<lparr>Time = 10, Message = ''B'', Level = LevelError, PC = 0,
         RecordAttrs = [\<lparr>AttrKey = ''duration'', AttrValue = StringV ''20ns''\<rparr>]\<rparr>, None),
       (\<lparr>Time = 20, Message = ''A'', Level = LevelInfo, PC = 0,
         RecordAttrs = [\<lparr>AttrKey = ''duration'', AttrValue = StringV ''10ns''\<rparr>]\<rparr>,
        Some (HandlerError ''closed''))])"
  (is "ExportSpans ?ff ?Sub ?h ?e ?ctx ?spans [] = _")
proof -
  let ?a0 = "\<lparr>Time = 10, Message = ''a0'', Level = LevelInfo, PC = 0, RecordAttrs = []\<rparr>"
  let ?B = "\<lparr>Time = 10, Message = ''B'', Level = LevelError, PC = 0,
         RecordAttrs = [\<lparr>AttrKey = ''duration'', AttrValue = StringV ''20ns''\<rparr>]\<rparr>"
  let ?A = "\<lparr>Time = 20, Message = ''A'', Level = LevelInfo, PC = 0,
         RecordAttrs = [\<lparr>AttrKey = ''duration'', AttrValue = StringV ''10ns''\<rparr>]\<rparr>"
  let ?a1 = "\<lparr>Time = 20, Message = ''a1'', Level = LevelInfo, PC = 0, RecordAttrs = []\<rparr>"
  let ?b1 = "\<lparr>Time = 20, Message = ''b1'', Level = LevelError, PC = 0, RecordAttrs = []\<rparr>"
  have active: "\<not> stopped ?e"
    by simp
  have sorted: "SortStableFunc cmpTime (spanLoop ?ff ?Sub ?spans []) = [?a0, ?B] @ ?A # [?a1, ?b1]"
    by code_simp
  have pre: "deliver ?h ?ctx [?a0, ?B] [] =
               (None, [''a0'', ''B''], [(?a0, None), (?B, None)])"
    by simp
  have fails: "?h ?ctx ?A [''a0'', ''B''] = (Some (HandlerError ''closed''), [''a0'', ''B''])"
    by simp
  from ExportSpans_partial_delivery [OF active sorted pre fails] show ?thesis
    by simp
qed

section \<open>The lifecycle\<close>

lemma Shutdown_eq: "Shutdown e ctx = (Err ctx, e\<lparr>stopped := True\<rparr>)"
  by (cases "Err ctx") (simp_all add: Shutdown_def Done_def Let_def)

lemma ExportSpans_stopped: "stopped e \<Longrightarrow> ExportSpans ff Sub h e ctx spans s = (None, s, [])"
  by (simp add: ExportSpans_def)

lemma runCalls_stopped:
  "stopped e \<Longrightarrow>
   runCalls ff Sub h cs e s =
     (map (\<lambda>c. case c of ExportSpansCall ctx spans \<Rightarrow> None | ShutdownCall ctx \<Rightarrow> Err ctx) cs,
      e, s, [])"
proof (induction cs)
  case Nil
  show ?case by simp
next
  case (Cons c cs)
  from Cons.prems have same: "e\<lparr>stopped := True\<rparr> = e"
    by simp
  note IH = Cons.IH [OF Cons.prems]
  show ?case
  proof (cases c)
    case (ExportSpansCall ctx spans)
    with IH Cons.prems show ?thesis
      by (simp add: ExportSpans_stopped)
  next
    case (ShutdownCall ctx)
    have "Shutdown e ctx = (Err ctx, e)"
      by (simp only: Shutdown_eq same)
    with IH ShutdownCall show ?thesis
      by simp
  qed
qed

text \<open>
  C7. On the exporter that a call of \<^verbatim>\<open>Shutdown\<close> leaves behind, whatever that call
  returned, \<^verbatim>\<open>ExportSpans\<close> returns no error, calls \<^verbatim>\<open>Handle\<close> not once and leaves the
  backend as it was, for every batch; and so does every \<^verbatim>\<open>ExportSpans\<close> in any sequence
  of later calls, in which a further \<^verbatim>\<open>Shutdown\<close> returns the error of its context.
\<close>

theorem ExportSpans_after_Shutdown:
  "ExportSpans ff Sub h (snd (Shutdown e ctx)) ctx' spans s = (None, s, [])
   \<and> runCalls ff Sub h cs (snd (Shutdown e ctx)) s =
       (map (\<lambda>c. case c of ExportSpansCall ctx spans \<Rightarrow> None | ShutdownCall ctx \<Rightarrow> Err ctx) cs,
        snd (Shutdown e ctx), s, [])"
  by (simp add: Shutdown_eq ExportSpans_stopped runCalls_stopped)

text \<open>A fresh exporter is shut down; a batch of one span, a second shutdown with an
  expired context and the batch again follow.\<close>

theorem ExportSpans_after_Shutdown_witness:
  "runCalls (\<lambda>f. ''3.14'') (\<lambda>t u. t - u) (\<lambda>ctx r s. (None, s @ [Message r]))
     [ExportSpansCall (Context None)
        [\<lparr>Name = ''test'', StartTime = 10, EndTime = 20,
          Status = \<lparr>Code = Unset, Description = ''''\<rparr>, Attributes = [], Events = []\<rparr>],
      ShutdownCall (Context (Some DeadlineExceeded)),
      ExportSpansCall (Context None)
        [\<lparr>Name = ''test'', StartTime = 10, EndTime = 20,
          Status = \<lparr>Code = Unset, Description = ''''\<rparr>, Attributes = [], Events = []\<rparr>]]
     (snd (Shutdown \<lparr>stopped = False\<rparr> (Context None))) [] =
     ([None, Some DeadlineExceeded, None], \<lparr>stopped = True\<rparr>, [], [])"
  using ExportSpans_after_Shutdown [of "\<lambda>f. ''3.14''" "\<lambda>t u. t - u"
      "\<lambda>ctx r s. (None, s @ [Message r])"
      "\<lparr>stopped = False\<rparr>" "Context None" "Context None" "[]" "[]"
      "[ExportSpansCall (Context None)
        [\<lparr>Name = ''test'', StartTime = 10, EndTime = 20,
          Status = \<lparr>Code = Unset, Description = ''''\<rparr>, Attributes = [], Events = []\<rparr>],
      ShutdownCall (Context (Some DeadlineExceeded)),
      ExportSpansCall (Context None)
        [\<lparr>Name = ''test'', StartTime = 10, EndTime = 20,
          Status = \<lparr>Code = Unset, Description = ''''\<rparr>, Attributes = [], Events = []\<rparr>]]"]
  by (simp add: Shutdown_eq)

text \<open>
  C8. \<^verbatim>\<open>Shutdown\<close> leaves the flag set, whatever it was and whatever the context is, and
  changes nothing else; a second call leaves the same exporter. It returns the error of
  the context, which is an error exactly when the context is done and \<^verbatim>\<open>nil\<close> otherwise.
\<close>

theorem Shutdown_sets_stopped:
  "stopped (snd (Shutdown e ctx))
   \<and> snd (Shutdown e ctx) = e\<lparr>stopped := True\<rparr>
   \<and> snd (Shutdown (snd (Shutdown e ctx)) ctx') = snd (Shutdown e ctx)
   \<and> fst (Shutdown e ctx) = Err ctx
   \<and> (fst (Shutdown e ctx) \<noteq> None) = Done ctx
   \<and> (fst (Shutdown e ctx) = None) = (\<not> Done ctx)"
  by (simp add: Shutdown_eq Done_def)

theorem Shutdown_sets_stopped_witness:
  "Shutdown \<lparr>stopped = False\<rparr> (Context None) = (None, \<lparr>stopped = True\<rparr>)
   \<and> Shutdown \<lparr>stopped = False\<rparr> (Context (Some Canceled)) =
       (Some Canceled, \<lparr>stopped = True\<rparr>)
   \<and> Shutdown \<lparr>stopped = True\<rparr> (Context (Some DeadlineExceeded)) =
       (Some DeadlineExceeded, \<lparr>stopped = True\<rparr>)"
  using Shutdown_sets_stopped [of "\<lparr>stopped = False\<rparr>" "Context None"]
    Shutdown_sets_stopped [of "\<lparr>stopped = False\<rparr>" "Context (Some Canceled)"]
    Shutdown_sets_stopped [of "\<lparr>stopped = True\<rparr>" "Context (Some DeadlineExceeded)"]
  by (simp add: Shutdown_eq)

section \<open>Construction\<close>

text \<open>
  C1. \<^verbatim>\<open>New\<close> has no parameter and the exporter has no field for a filter: the only
  construction is the one without a filter, and it succeeds. The repository's tests call
  \<^verbatim>\<open>slogtrace.New(filter)\<close> and, in \<^verbatim>\<open>TestAttributesAreFiltered\<close>, expect of the two string
  attributes \<^verbatim>\<open>string\<close> and \<^verbatim>\<open>string2\<close> only the first in the log line. On the exporter
  that \<^verbatim>\<open>New\<close> returns, the batch of that test is delivered with both.
\<close>

theorem New_without_filter:
  "New = Inr \<lparr>stopped = False\<rparr>
   \<and> map (\<lambda>c. (Message (fst c), map AttrKey (RecordAttrs (fst c)), snd c))
       (snd (snd (ExportSpans (\<lambda>f. ''3.14'') (\<lambda>t u. t - u) (\<lambda>ctx r s. (None, s @ [Message r]))
         \<lparr>stopped = False\<rparr> (Context None)
         [\<lparr>Name = ''test'', StartTime = 10, EndTime = 20,
           Status = \<lparr>Code = Unset, Description = ''''\<rparr>,
           Attributes = [\<lparr>Key = ''string'', Value = StringValue ''hello world''\<rparr>,
                         \<lparr>Key = ''string2'', Value = StringValue ''hello world 2''\<rparr>],
           Events = []\<rparr>]
         []))) =
     [(''test'', [''duration'', ''string'', ''string2''], None)]"
proof -
  have "New = Inr \<lparr>stopped = False\<rparr>"
    by (simp add: New_def)
  moreover have "map (\<lambda>c. (Message (fst c), map AttrKey (RecordAttrs (fst c)), snd c))
       (snd (snd (ExportSpans (\<lambda>f. ''3.14'') (\<lambda>t u. t - u) (\<lambda>ctx r s. (None, s @ [Message r]))
         \<lparr>stopped = False\<rparr> (Context None)
         [\<lparr>Name = ''test'', StartTime = 10, EndTime = 20,
           Status = \<lparr>Code = Unset, Description = ''''\<rparr>,
           Attributes = [\<lparr>Key = ''string'', Value = StringValue ''hello world''\<rparr>,
                         \<lparr>Key = ''string2'', Value = StringValue ''hello world 2''\<rparr>],
           Events = []\<rparr>]
         []))) =
     [(''test'', [''duration'', ''string'', ''string2''], None)]"
    by code_simp
  ultimately show ?thesis
    by (rule conjI)
qed

end
